theory Spec2Isabelle
  imports Main
begin

section \<open>Common definitions\<close>

text \<open>
  Failure outcomes of the modelled functions. The C++ code signals failure by returning
  \<^verbatim>\<open>false\<close> or an empty string, or by a thrown standard-library exception; every
  such exit is one constructor here, named after the error kind it stands for.
  \<open>UndefinedBehaviour\<close> marks calls whose behaviour the C++ standard leaves undefined
  (\<^verbatim>\<open>vector::erase\<close> with iterators outside the vector).
\<close>

datatype error =
    HunkOutOfRange
  | UndefinedBehaviour
  | InvalidArgument
  | OutOfRange
  | EmptyCommit
  | IOFailure
  | NotFound
  | InvalidState

text \<open>\<^verbatim>\<open>static_cast<int>\<close> of a \<^verbatim>\<open>size_t\<close>: reduction to 32 bits, read as signed.\<close>

definition to_int :: "nat \<Rightarrow> int" where
  "to_int n = (int n + 2 ^ 31) mod 2 ^ 32 - 2 ^ 31"

definition newline :: char where
  "newline = CHR 0x0A"

section \<open>Diff engine (diff.cpp)\<close>

record DiffHunk =
  oldStart :: int
  oldCount :: int
  newStart :: int
  newCount :: int
  lines :: "string list"

record FileDiff =
  oldFile :: string
  newFile :: string
  hunks :: "DiffHunk list"

text \<open>
  \<^verbatim>\<open>splitLines\<close>: repeated \<^verbatim>\<open>std::getline\<close>. The first argument of \<open>getlines\<close> is the
  line read so far. A newline ends the line (and is dropped); at the end of the input a
  line is delivered only if at least one character was read for it.
\<close>

fun getlines :: "string \<Rightarrow> string \<Rightarrow> string list" where
  "getlines cur [] = (if cur = [] then [] else [cur])"
| "getlines cur (c # cs) =
     (if c = newline then cur # getlines [] cs else getlines (cur @ [c]) cs)"

definition splitLines :: "string \<Rightarrow> string list" where
  "splitLines content = getlines [] content"

text \<open>
  The search loop of the added-line special case of \<^verbatim>\<open>computeHunks\<close>: the first index
  \<open>i\<close> below the length of the old lines with \<open>i\<close> below the length of the new lines and
  \<open>oldLines[i] \<noteq> newLines[i]\<close>.
\<close>

fun foundAddedLine :: "string list \<Rightarrow> string list \<Rightarrow> nat option" where
  "foundAddedLine [] ns = None"
| "foundAddedLine (l # ls) [] = None"
| "foundAddedLine (l # ls) (n # ns) =
     (if l \<noteq> n then Some 0 else map_option Suc (foundAddedLine ls ns))"

text \<open>
  The comparison loop of the default case of \<^verbatim>\<open>computeHunks\<close>; the two arguments are
  the old lines from index \<open>i\<close> on and the new lines from index \<open>j\<close> on.
\<close>

fun compareLines :: "string list \<Rightarrow> string list \<Rightarrow> string list" where
  "compareLines [] [] = []"
| "compareLines [] (n # ns) = (CHR ''+'' # n) # compareLines [] ns"
| "compareLines (l # ls) [] = (CHR ''-'' # l) # compareLines ls []"
| "compareLines (l # ls) (n # ns) =
     (if l = n then (CHR '' '' # l) # compareLines ls ns
      else (CHR ''+'' # n) # compareLines (l # ls) ns)"

text \<open>
  \<^verbatim>\<open>computeHunks\<close>. The context-line count is normalised at the start of the C++
  function and not read afterwards. Identical inputs give no hunk; the added-line special
  case gives a hunk with fixed counts 2 and 3, positioned at the index found; every other
  input gives one hunk over the whole old file.
\<close>

definition computeHunks :: "string list \<Rightarrow> string list \<Rightarrow> int \<Rightarrow> DiffHunk list" where
  "computeHunks oldLines newLines contextLines =
     (if oldLines = newLines then []
      else
        (case (if length newLines = length oldLines + 1
               then foundAddedLine oldLines newLines else None) of
           Some i \<Rightarrow>
             [\<lparr>oldStart = to_int i, oldCount = 2, newStart = to_int i, newCount = 3,
               lines = (if i > 0 then [CHR '' '' # oldLines ! (i - 1)] else [])
                       @ [CHR ''-'' # oldLines ! i, CHR ''+'' # newLines ! i,
                          CHR '' '' # oldLines ! i]\<rparr>]
         | None \<Rightarrow>
             [\<lparr>oldStart = 1, oldCount = to_int (length oldLines),
               newStart = 1, newCount = to_int (length newLines),
               lines = compareLines oldLines newLines\<rparr>]))"

definition generateDiffFromStrings :: "string \<Rightarrow> string \<Rightarrow> int \<Rightarrow> FileDiff" where
  "generateDiffFromStrings oldContent newContent contextLines =
     \<lparr>oldFile = ''a'', newFile = ''b'',
      hunks = computeHunks (splitLines oldContent) (splitLines newContent) contextLines\<rparr>"

text \<open>
  The lines a hunk inserts in \<^verbatim>\<open>applyDiff\<close>: those tagged \<open>+\<close> or blank, without the tag.
\<close>

fun insertedLines :: "string list \<Rightarrow> string list" where
  "insertedLines [] = []"
| "insertedLines (l # ls) =
     (case l of
        [] \<Rightarrow> insertedLines ls
      | c # body \<Rightarrow>
          (if c = CHR ''+'' then body # insertedLines ls
           else if c = CHR '' '' then body # insertedLines ls
           else insertedLines ls))"

text \<open>
  One iteration of the hunk loop of \<^verbatim>\<open>applyDiff\<close>. \<^verbatim>\<open>erase\<close> is defined only for a
  range inside the vector.
\<close>

definition applyHunk :: "DiffHunk \<Rightarrow> string list \<Rightarrow> error + string list" where
  "applyHunk hunk ls =
     (if oldStart hunk > to_int (length ls) then Inl HunkOutOfRange
      else if oldStart hunk < 1 \<or> oldCount hunk < 0
              \<or> oldStart hunk - 1 + oldCount hunk > int (length ls)
        then Inl UndefinedBehaviour
      else Inr (take (nat (oldStart hunk - 1)) ls
                @ insertedLines (lines hunk)
                @ drop (nat (oldStart hunk - 1 + oldCount hunk)) ls))"

fun applyHunks :: "DiffHunk list \<Rightarrow> string list \<Rightarrow> error + string list" where
  "applyHunks [] ls = Inr ls"
| "applyHunks (hunk # rest) ls =
     (case applyHunk hunk ls of Inl e \<Rightarrow> Inl e | Inr ls' \<Rightarrow> applyHunks rest ls')"

text \<open>The joining loop of \<^verbatim>\<open>applyDiff\<close>: a newline between lines, none after the last.\<close>

fun joinLines :: "string list \<Rightarrow> string" where
  "joinLines [] = []"
| "joinLines [l] = l"
| "joinLines (l # ls) = l @ newline # joinLines ls"

text \<open>The part of \<^verbatim>\<open>applyDiff\<close> between reading and writing the target.\<close>

definition patchContent :: "FileDiff \<Rightarrow> string \<Rightarrow> error + string" where
  "patchContent diff content =
     (case applyHunks (hunks diff) (splitLines content) of
        Inl e \<Rightarrow> Inl e
      | Inr ls \<Rightarrow>
          (let finalContent = joinLines ls in
           Inr (if content \<noteq> [] \<and> last content = newline
                   \<and> finalContent \<noteq> [] \<and> last finalContent \<noteq> newline
                then finalContent @ [newline] else finalContent)))"

text \<open>
  The working tree as far as \<^verbatim>\<open>utils::readFile\<close> and \<^verbatim>\<open>utils::writeFile\<close> see it:
  the content of each file, and whether a path can be opened for writing.
\<close>

record FileSystem =
  contents :: "string \<rightharpoonup> string"
  writable :: "string \<Rightarrow> bool"

definition readFile :: "FileSystem \<Rightarrow> string \<Rightarrow> string" where
  "readFile fs p = (case contents fs p of None \<Rightarrow> [] | Some c \<Rightarrow> c)"

definition writeFile :: "FileSystem \<Rightarrow> string \<Rightarrow> string \<Rightarrow> bool \<times> FileSystem" where
  "writeFile fs p c =
     (if writable fs p then (True, fs\<lparr>contents := (contents fs)(p \<mapsto> c)\<rparr>) else (False, fs))"

text \<open>
  \<^verbatim>\<open>applyDiff\<close> returns \<^verbatim>\<open>true\<close> (here \<open>None\<close>) or \<^verbatim>\<open>false\<close> (here the error that
  caused it), together with the file system it leaves.
\<close>

definition applyDiff :: "FileDiff \<Rightarrow> string \<Rightarrow> FileSystem \<Rightarrow> error option \<times> FileSystem" where
  "applyDiff diff target fs =
     (case patchContent diff (readFile fs target) of
        Inl e \<Rightarrow> (Some e, fs)
      | Inr finalContent \<Rightarrow>
          (case writeFile fs target finalContent of
             (True, fs') \<Rightarrow> (None, fs')
           | (False, fs') \<Rightarrow> (Some IOFailure, fs')))"

subsection \<open>Text form of a diff\<close>

text \<open>
  \<^verbatim>\<open>operator<<\<close> for an \<^verbatim>\<open>int\<close>: decimal digits, with a minus sign for a negative
  value.
\<close>

definition digit_char :: "int \<Rightarrow> char" where
  "digit_char d = char_of (48 + d)"

function show_digits :: "int \<Rightarrow> string" where
  "show_digits n =
     (if n < 10 then [digit_char n] else show_digits (n div 10) @ [digit_char (n mod 10)])"
  by pat_completeness auto
termination
  by (relation "measure nat") auto

declare show_digits.simps [simp del]

definition show_int :: "int \<Rightarrow> string" where
  "show_int i = (if i < 0 then CHR ''-'' # show_digits (- i) else show_digits i)"

text \<open>\<^verbatim>\<open>diffToString\<close>: the two header lines, then each hunk's header and lines.\<close>

definition hunkHeader :: "DiffHunk \<Rightarrow> string" where
  "hunkHeader hunk =
     ''@@ -'' @ show_int (oldStart hunk) @ '','' @ show_int (oldCount hunk)
     @ '' +'' @ show_int (newStart hunk) @ '','' @ show_int (newCount hunk) @ '' @@''"

definition hunkToString :: "DiffHunk \<Rightarrow> string" where
  "hunkToString hunk =
     hunkHeader hunk @ [newline] @ concat (map (\<lambda>l. l @ [newline]) (lines hunk))"

definition diffToString :: "FileDiff \<Rightarrow> string" where
  "diffToString diff =
     ''--- '' @ oldFile diff @ [newline] @ ''+++ '' @ newFile diff @ [newline]
     @ concat (map hunkToString (hunks diff))"

text \<open>
  \<^verbatim>\<open>std::string::substr\<close> and \<^verbatim>\<open>std::string::find\<close>. Every call of \<^verbatim>\<open>substr\<close> in
  \<^verbatim>\<open>parseDiff\<close> starts inside the string, so it never throws there. \<open>None\<close> is
  \<^verbatim>\<open>npos\<close>.
\<close>

definition substr :: "string \<Rightarrow> nat \<Rightarrow> nat \<Rightarrow> string" where
  "substr s pos n = take n (drop pos s)"

fun find_char :: "char \<Rightarrow> string \<Rightarrow> nat option" where
  "find_char c [] = None"
| "find_char c (x # xs) = (if x = c then Some 0 else map_option Suc (find_char c xs))"

definition find_from :: "string \<Rightarrow> char \<Rightarrow> nat \<Rightarrow> nat option" where
  "find_from s c pos = map_option (\<lambda>i. pos + i) (find_char c (drop pos s))"

fun find_str :: "string \<Rightarrow> string \<Rightarrow> nat option" where
  "find_str pat [] = (if pat = [] then Some 0 else None)"
| "find_str pat (x # xs) =
     (if take (length pat) (x # xs) = pat then Some 0 else map_option Suc (find_str pat xs))"

definition find_str_from :: "string \<Rightarrow> string \<Rightarrow> nat \<Rightarrow> nat option" where
  "find_str_from s pat pos =
     (if pos > length s then None else map_option (\<lambda>i. pos + i) (find_str pat (drop pos s)))"

text \<open>
  \<^verbatim>\<open>std::stoi\<close>: leading white space is skipped, a sign is optional, the longest run of
  digits is read and what follows is ignored. It throws \<^verbatim>\<open>invalid_argument\<close> when there
  is no digit and \<^verbatim>\<open>out_of_range\<close> when the value does not fit an \<^verbatim>\<open>int\<close>.
\<close>

definition isspace :: "char \<Rightarrow> bool" where
  "isspace c = (c = CHR '' '' \<or> (9 \<le> (of_char c :: int) \<and> (of_char c :: int) \<le> 13))"

definition isdigit :: "char \<Rightarrow> bool" where
  "isdigit c = (48 \<le> (of_char c :: int) \<and> (of_char c :: int) \<le> 57)"

definition digits_value :: "string \<Rightarrow> int" where
  "digits_value ds = foldl (\<lambda>acc c. 10 * acc + (of_char c - 48)) 0 ds"

definition stoi :: "string \<Rightarrow> error + int" where
  "stoi str =
     (let s1 = dropWhile isspace str;
          neg = (s1 \<noteq> [] \<and> hd s1 = CHR ''-'');
          s2 = (if s1 \<noteq> [] \<and> (hd s1 = CHR ''-'' \<or> hd s1 = CHR ''+'') then tl s1 else s1);
          ds = takeWhile isdigit s2
      in if ds = [] then Inl InvalidArgument
         else (let v = (if neg then - digits_value ds else digits_value ds)
               in if v < - (2 ^ 31) \<or> v > 2 ^ 31 - 1 then Inl OutOfRange else Inr v))"

text \<open>
  \<^verbatim>\<open>parseDiff\<close>. \<open>parseHeader\<close> is the header analysis: \<open>None\<close> when one of the five
  searches fails (the line is skipped), otherwise the four numbers or the exception thrown
  by \<^verbatim>\<open>std::stoi\<close>. \<open>parseHunks\<close> is the loop over the lines after the two header
  lines: lines before the first hunk header are skipped, a hunk takes the lines up to the
  next hunk header.
\<close>

definition isHunkHeader :: "string \<Rightarrow> bool" where
  "isHunkHeader l = (substr l 0 3 = ''@@ '')"

definition parseNumbers :: "string \<Rightarrow> nat \<Rightarrow> nat \<Rightarrow> nat \<Rightarrow> nat \<Rightarrow> nat
    \<Rightarrow> error + int \<times> int \<times> int \<times> int" where
  "parseNumbers header minusPos commaPos1 plusPos commaPos2 atPos =
     (case stoi (substr header (minusPos + 1) (commaPos1 - minusPos - 1)) of
        Inl e \<Rightarrow> Inl e
      | Inr os \<Rightarrow>
     (case stoi (substr header (commaPos1 + 1) (plusPos - commaPos1 - 1)) of
        Inl e \<Rightarrow> Inl e
      | Inr oc \<Rightarrow>
     (case stoi (substr header (plusPos + 1) (commaPos2 - plusPos - 1)) of
        Inl e \<Rightarrow> Inl e
      | Inr ns \<Rightarrow>
     (case stoi (substr header (commaPos2 + 1) (atPos - commaPos2 - 1)) of
        Inl e \<Rightarrow> Inl e
      | Inr nc \<Rightarrow> Inr (os, oc, ns, nc)))))"

definition parseHeader :: "string \<Rightarrow> (error + int \<times> int \<times> int \<times> int) option" where
  "parseHeader header =
     (case find_from header (CHR ''-'') 0 of
        None \<Rightarrow> None
      | Some minusPos \<Rightarrow>
     (case find_from header (CHR '','') minusPos of
        None \<Rightarrow> None
      | Some commaPos1 \<Rightarrow>
     (case find_from header (CHR ''+'') commaPos1 of
        None \<Rightarrow> None
      | Some plusPos \<Rightarrow>
     (case find_from header (CHR '','') plusPos of
        None \<Rightarrow> None
      | Some commaPos2 \<Rightarrow>
     (case find_str_from header '' @@'' commaPos2 of
        None \<Rightarrow> None
      | Some atPos \<Rightarrow>
          Some (parseNumbers header minusPos commaPos1 plusPos commaPos2 atPos))))))"

function parseHunks :: "string list \<Rightarrow> error + DiffHunk list" where
  "parseHunks [] = Inr []"
| "parseHunks (l # ls) =
     (if \<not> isHunkHeader l then parseHunks ls
      else
        (case parseHeader l of
           None \<Rightarrow> parseHunks ls
         | Some (Inl e) \<Rightarrow> Inl e
         | Some (Inr (os, oc, ns, nc)) \<Rightarrow>
             (case parseHunks (dropWhile (\<lambda>x. \<not> isHunkHeader x) ls) of
                Inl e \<Rightarrow> Inl e
              | Inr rest \<Rightarrow>
                  Inr (\<lparr>oldStart = os, oldCount = oc, newStart = ns, newCount = nc,
                        lines = takeWhile (\<lambda>x. \<not> isHunkHeader x) ls\<rparr> # rest))))"
  by pat_completeness auto
termination
  by (relation "measure length") (auto simp: less_Suc_eq_le length_dropWhile_le)

definition parseDiff :: "string \<Rightarrow> error + FileDiff" where
  "parseDiff diffStr =
     (case splitLines diffStr of
        l0 # l1 # rest \<Rightarrow>
          (if substr l0 0 4 = ''--- '' then
             (if substr l1 0 4 = ''+++ '' then
                (case parseHunks rest of
                   Inl e \<Rightarrow> Inl e
                 | Inr hs \<Rightarrow> Inr \<lparr>oldFile = drop 4 l0, newFile = drop 4 l1, hunks = hs\<rparr>)
              else Inr \<lparr>oldFile = drop 4 l0, newFile = [], hunks = []\<rparr>)
           else Inr \<lparr>oldFile = [], newFile = [], hunks = []\<rparr>)
      | _ \<Rightarrow> Inr \<lparr>oldFile = [], newFile = [], hunks = []\<rparr>)"

section \<open>Commit manager (commit.cpp)\<close>

text \<open>
  The file table is an \<^verbatim>\<open>unordered_map\<close>; it is modelled as an association list in
  insertion order (\<open>assign\<close> is \<^verbatim>\<open>operator[]\<close> followed by assignment). The time stamp
  is a \<^verbatim>\<open>time_t\<close>.
\<close>

record CommitInfo =
  hash :: string
  message :: string
  author :: string
  email :: string
  timestamp :: int
  parentHashes :: "string list"
  fileHashes :: "(string \<times> string) list"

text \<open>
  What \<^verbatim>\<open>createCommit\<close> takes from outside the repository's own code: the SHA-256
  digest in hexadecimal, the ISO-8601 rendering of a time stamp, the user's identity and
  the clock.
\<close>

record Env =
  sha256 :: "string \<Rightarrow> string"
  formatTimestamp :: "int \<Rightarrow> string"
  getUserName :: string
  getUserEmail :: string
  now :: int

text \<open>The members of \<^verbatim>\<open>CommitManager\<close> that the modelled functions read or write.\<close>

record CommitManager =
  mimirionDir :: string
  currentHead :: string

definition emptyCommit :: CommitInfo where
  "emptyCommit = \<lparr>hash = [], message = [], author = [], email = [], timestamp = 0,
     parentHashes = [], fileHashes = []\<rparr>"

fun assign :: "string \<Rightarrow> string \<Rightarrow> (string \<times> string) list \<Rightarrow> (string \<times> string) list" where
  "assign k v [] = [(k, v)]"
| "assign k v ((a, b) # ps) = (if a = k then (k, v) # ps else (a, b) # assign k v ps)"

text \<open>The message clean-up loop of \<^verbatim>\<open>createCommit\<close>.\<close>

definition stripTrailingNewlines :: "string \<Rightarrow> string" where
  "stripTrailingNewlines s = rev (dropWhile (\<lambda>c. c = newline \<or> c = CHR 0x0D) (rev s))"

text \<open>
  \<^verbatim>\<open>generateCommitHash\<close> hashes \<open>commitHashText\<close>; \<^verbatim>\<open>saveCommitObject\<close> writes
  \<open>commitObjectText\<close>. The parent lines and the author and committer lines are the same
  in both.
\<close>

definition identityLines :: "Env \<Rightarrow> CommitInfo \<Rightarrow> string" where
  "identityLines env commit =
     ''author '' @ author commit @ '' <'' @ email commit @ ''> ''
       @ formatTimestamp env (timestamp commit) @ [newline]
     @ ''committer '' @ author commit @ '' <'' @ email commit @ ''> ''
       @ formatTimestamp env (timestamp commit) @ [newline]"

definition parentLines :: "CommitInfo \<Rightarrow> string" where
  "parentLines commit = concat (map (\<lambda>parent. ''parent '' @ parent @ [newline]) (parentHashes commit))"

definition commitHashText :: "Env \<Rightarrow> CommitInfo \<Rightarrow> string" where
  "commitHashText env commit =
     ''tree dummy-tree-hash'' @ [newline] @ parentLines commit @ identityLines env commit
     @ [newline] @ message commit @ [newline]"

definition generateCommitHash :: "Env \<Rightarrow> CommitInfo \<Rightarrow> string" where
  "generateCommitHash env commit = sha256 env (commitHashText env commit)"

definition commitObjectText :: "Env \<Rightarrow> CommitInfo \<Rightarrow> string" where
  "commitObjectText env commit =
     ''commit '' @ hash commit @ [newline] @ parentLines commit @ identityLines env commit
     @ [newline] @ message commit @ [newline]
     @ [newline] @ ''files:'' @ [newline]
     @ concat (map (\<lambda>(file, h). file @ [CHR 0x09] @ h @ [newline]) (fileHashes commit))"

text \<open>
  \<^verbatim>\<open>saveCommitObject\<close>: \<^verbatim>\<open>hash.substr(2)\<close> throws \<^verbatim>\<open>out_of_range\<close> for a hash shorter
  than two characters; a file that cannot be opened makes it return \<^verbatim>\<open>false\<close>.
\<close>

definition objectPath :: "CommitManager \<Rightarrow> string \<Rightarrow> string" where
  "objectPath mgr h = mimirionDir mgr @ ''/objects/'' @ take 2 h @ ''/'' @ drop 2 h"

definition saveCommitObject ::
  "Env \<Rightarrow> CommitManager \<Rightarrow> FileSystem \<Rightarrow> CommitInfo \<Rightarrow> error option \<times> FileSystem" where
  "saveCommitObject env mgr fs commit =
     (if length (hash commit) < 2 then (Some OutOfRange, fs)
      else if \<not> writable fs (objectPath mgr (hash commit)) then (Some IOFailure, fs)
      else (None, fs\<lparr>contents := (contents fs)
                      (objectPath mgr (hash commit) \<mapsto> commitObjectText env commit)\<rparr>))"

text \<open>\<^verbatim>\<open>CommitManager::saveState\<close> writes the \<^verbatim>\<open>HEAD\<close> file.\<close>

definition saveState :: "CommitManager \<Rightarrow> FileSystem \<Rightarrow> bool \<times> FileSystem" where
  "saveState mgr fs =
     (if \<not> writable fs (mimirionDir mgr @ ''/HEAD'') then (False, fs)
      else (True, fs\<lparr>contents := (contents fs)
                      (mimirionDir mgr @ ''/HEAD'' \<mapsto> ''ref: refs/heads/master'' @ [newline])\<rparr>))"

text \<open>
  \<open>newCommit\<close> is the commit record that \<^verbatim>\<open>createCommit\<close> builds before saving it:
  the cleaned message, the identity, the current head as only parent (none when the head
  is empty), every staged file mapped to the placeholder \<^verbatim>\<open>dummy-file-hash\<close>, and
  then the hash.
\<close>

definition newCommit :: "Env \<Rightarrow> string \<Rightarrow> string list \<Rightarrow> string \<Rightarrow> CommitInfo" where
  "newCommit env msg stagedFiles head =
     (let commit = \<lparr>hash = [], message = stripTrailingNewlines msg, author = getUserName env,
                     email = getUserEmail env, timestamp = now env,
                     parentHashes = (if head \<noteq> [] then [head] else []),
                     fileHashes = foldl (\<lambda>m file. assign file ''dummy-file-hash'' m) [] stagedFiles\<rparr>
      in commit\<lparr>hash := generateCommitHash env commit\<rparr>)"

text \<open>
  \<^verbatim>\<open>createCommit\<close> returns the new hash, or the empty string on failure (here the
  error), and leaves a manager and a file system. The head member is set before the
  branch file is opened.
\<close>

definition createCommit ::
  "Env \<Rightarrow> string \<Rightarrow> string list \<Rightarrow> CommitManager \<times> FileSystem
     \<Rightarrow> (error + string) \<times> CommitManager \<times> FileSystem" where
  "createCommit env msg stagedFiles st =
     (case st of (mgr, fs) \<Rightarrow>
      if stagedFiles = [] then (Inl EmptyCommit, mgr, fs)
      else
        (let commit = newCommit env msg stagedFiles (currentHead mgr) in
         case saveCommitObject env mgr fs commit of
           (Some e, fs1) \<Rightarrow> (Inl e, mgr, fs1)
         | (None, fs1) \<Rightarrow>
             (let mgr1 = mgr\<lparr>currentHead := hash commit\<rparr>;
                  ref = mimirionDir mgr @ ''/refs/heads/master''
              in if \<not> writable fs1 ref then (Inl IOFailure, mgr1, fs1)
                 else (Inr (hash commit), mgr1,
                       snd (saveState mgr1
                              (fs1\<lparr>contents := (contents fs1)(ref \<mapsto> hash commit @ [newline])\<rparr>))))))"

text \<open>
  \<^verbatim>\<open>getHistory\<close>. The loop may run forever (on a cyclic parent chain with
  \<open>maxCount = 0\<close>), so \<open>None\<close> stands for not returning. \<^verbatim>\<open>loadCommitObject\<close> is a
  parameter: the loop reads of a loaded commit only its hash (empty when the object
  cannot be loaded) and its parent list.
\<close>

partial_function (option) historyLoop ::
  "(string \<Rightarrow> CommitInfo) \<Rightarrow> nat \<Rightarrow> string \<Rightarrow> nat \<Rightarrow> CommitInfo list \<Rightarrow> CommitInfo list option" where
  "historyLoop loadCommitObject maxCount current count history =
     (if current \<noteq> [] \<and> (maxCount = 0 \<or> count < maxCount) then
        (if hash (loadCommitObject current) = [] then Some history
         else
           (case parentHashes (loadCommitObject current) of
              [] \<Rightarrow> Some (history @ [loadCommitObject current])
            | parent # others \<Rightarrow>
                historyLoop loadCommitObject maxCount parent (count + 1)
                  (history @ [loadCommitObject current])))
      else Some history)"

definition getHistory ::
  "(string \<Rightarrow> CommitInfo) \<Rightarrow> CommitManager \<Rightarrow> nat \<Rightarrow> CommitInfo list option" where
  "getHistory loadCommitObject mgr maxCount =
     historyLoop loadCommitObject maxCount (currentHead mgr) 0 []"

section \<open>File tracker (file_tracker.cpp)\<close>

text \<open>
  \<open>fileHash\<close> is the member \<^verbatim>\<open>hash\<close> of \<^verbatim>\<open>FileInfo\<close>, renamed apart from the member of
  \<open>CommitInfo\<close>.
\<close>

datatype FileStatus = UNTRACKED | MODIFIED | STAGED | COMMITTED | DELETED

record FileInfo =
  path :: string
  fileHash :: string
  lastCommitHash :: string
  status :: FileStatus

text \<open>
  The working tree as the directory iterator delivers it: for each entry its path
  relative to the repository, whether its path starts with the metadata directory, and
  whether it is a directory or a regular file with its content. Files are taken to be
  readable, and paths to be given in the form \<^verbatim>\<open>fs::relative\<close> returns.
\<close>

datatype Node = Directory | RegularFile string

record DirEntry =
  relativePath :: string
  insideMimirionDir :: bool
  node :: Node

text \<open>
  \<^verbatim>\<open>calculateFileHash\<close> is \<^verbatim>\<open>utils::sha256File\<close>: the empty string for a path that is
  missing or not a regular file, else the digest of the content.
\<close>

definition lookupEntry :: "DirEntry list \<Rightarrow> string \<Rightarrow> DirEntry option" where
  "lookupEntry tree p = find (\<lambda>entry. relativePath entry = p) tree"

definition calculateFileHash :: "(string \<Rightarrow> string) \<Rightarrow> DirEntry list \<Rightarrow> string \<Rightarrow> string" where
  "calculateFileHash sha tree p =
     (case lookupEntry tree p of
        None \<Rightarrow> []
      | Some entry \<Rightarrow> (case node entry of Directory \<Rightarrow> [] | RegularFile content \<Rightarrow> sha content))"

text \<open>
  \<^verbatim>\<open>updateStatus\<close>: \<open>scanEntry\<close> is one iteration of the directory walk, which fills the
  new table from the old one; afterwards every old path missing from the new table is
  added with status \<open>DELETED\<close>.
\<close>

definition isIgnored :: "DirEntry \<Rightarrow> bool" where
  "isIgnored entry = insideMimirionDir entry"

definition scanEntry ::
  "(string \<Rightarrow> string) \<Rightarrow> (string \<rightharpoonup> FileInfo) \<Rightarrow> (string \<rightharpoonup> FileInfo) \<Rightarrow> DirEntry
     \<Rightarrow> (string \<rightharpoonup> FileInfo)" where
  "scanEntry sha oldFiles files entry =
     (if insideMimirionDir entry then files
      else
        (case node entry of
           Directory \<Rightarrow> files
         | RegularFile content \<Rightarrow>
             (if isIgnored entry then files
              else
                (case oldFiles (relativePath entry) of
                   Some old \<Rightarrow>
                     files(relativePath entry \<mapsto>
                       \<lparr>path = relativePath entry, fileHash = sha content,
                        lastCommitHash = lastCommitHash old,
                        status = (if sha content \<noteq> lastCommitHash old then MODIFIED
                                  else COMMITTED)\<rparr>)
                 | None \<Rightarrow>
                     files(relativePath entry \<mapsto>
                       \<lparr>path = relativePath entry, fileHash = sha content,
                        lastCommitHash = [], status = UNTRACKED\<rparr>)))))"

definition updateStatus ::
  "(string \<Rightarrow> string) \<Rightarrow> DirEntry list \<Rightarrow> (string \<rightharpoonup> FileInfo) \<Rightarrow> (string \<rightharpoonup> FileInfo)" where
  "updateStatus sha tree oldFiles =
     (let files = foldl (scanEntry sha oldFiles) Map.empty tree
      in (\<lambda>p. case files p of
                 Some info \<Rightarrow> Some info
               | None \<Rightarrow>
                   (case oldFiles p of
                      None \<Rightarrow> None
                    | Some old \<Rightarrow> Some (old\<lparr>status := DELETED\<rparr>))))"

text \<open>
  \<^verbatim>\<open>stageFile\<close> and \<^verbatim>\<open>unstageFile\<close> end with \<^verbatim>\<open>FileTracker::saveState\<close>, which fails
  when the index file cannot be opened; the table in memory is changed by then.
\<close>

definition saveIndex :: "bool \<Rightarrow> error option" where
  "saveIndex indexWritable = (if indexWritable then None else Some IOFailure)"

definition stageFile ::
  "(string \<Rightarrow> string) \<Rightarrow> DirEntry list \<Rightarrow> bool \<Rightarrow> string \<Rightarrow> (string \<rightharpoonup> FileInfo)
     \<Rightarrow> error option \<times> (string \<rightharpoonup> FileInfo)" where
  "stageFile sha tree indexWritable p files =
     (case lookupEntry tree p of
        None \<Rightarrow> (Some NotFound, files)
      | Some entry \<Rightarrow>
          (case files p of
             Some info \<Rightarrow>
               (saveIndex indexWritable,
                files(p \<mapsto> info\<lparr>fileHash := calculateFileHash sha tree p, status := STAGED\<rparr>))
           | None \<Rightarrow>
               (saveIndex indexWritable,
                files(p \<mapsto> \<lparr>path = p, fileHash = calculateFileHash sha tree p,
                              lastCommitHash = [], status = STAGED\<rparr>))))"

definition unstageFile ::
  "(string \<Rightarrow> string) \<Rightarrow> DirEntry list \<Rightarrow> bool \<Rightarrow> string \<Rightarrow> (string \<rightharpoonup> FileInfo)
     \<Rightarrow> error option \<times> (string \<rightharpoonup> FileInfo)" where
  "unstageFile sha tree indexWritable p files =
     (case files p of
        None \<Rightarrow> (Some InvalidState, files)
      | Some info \<Rightarrow>
          (if status info \<noteq> STAGED then (Some InvalidState, files)
           else if lastCommitHash info = [] then
             (saveIndex indexWritable, files(p \<mapsto> info\<lparr>status := UNTRACKED\<rparr>))
           else if calculateFileHash sha tree p = lastCommitHash info then
             (saveIndex indexWritable, files(p \<mapsto> info\<lparr>status := COMMITTED\<rparr>))
           else (saveIndex indexWritable, files(p \<mapsto> info\<lparr>status := MODIFIED\<rparr>))))"

section \<open>Notions of the specification\<close>

text \<open>
  The specification asks for a minimal edit script, based on a longest common
  subsequence. \<open>lcs_length\<close> is the length of a longest common subsequence, so a minimal
  script from \<open>a\<close> to \<open>b\<close> has \<open>minimalEditCount a b\<close> insertions and deletions;
  \<open>editCount\<close> counts the insertions and deletions a hunk list holds.
\<close>

fun lcs_length :: "'a list \<Rightarrow> 'a list \<Rightarrow> nat" where
  "lcs_length [] ys = 0"
| "lcs_length (x # xs) [] = 0"
| "lcs_length (x # xs) (y # ys) =
     (if x = y then Suc (lcs_length xs ys)
      else max (lcs_length (x # xs) ys) (lcs_length xs (y # ys)))"

definition minimalEditCount :: "string list \<Rightarrow> string list \<Rightarrow> nat" where
  "minimalEditCount a b = length a + length b - 2 * lcs_length a b"

definition isEdit :: "string \<Rightarrow> bool" where
  "isEdit l = (case l of [] \<Rightarrow> False | c # body \<Rightarrow> c = CHR ''+'' \<or> c = CHR ''-'')"

definition editCount :: "DiffHunk list \<Rightarrow> nat" where
  "editCount hs = sum_list (map (\<lambda>h. length (filter isEdit (lines h))) hs)"

text \<open>
  The condition under which \<^verbatim>\<open>computeHunks\<close> takes its added-line special case: the
  new file is one line longer and some old line differs from the new line at its index.
\<close>

definition addedLineCase :: "string list \<Rightarrow> string list \<Rightarrow> bool" where
  "addedLineCase a b = (length b = length a + 1 \<and> foundAddedLine a b \<noteq> None)"

text \<open>
  A well-formed diff: the two paths hold no newline; every hunk has positions and counts
  that an \<^verbatim>\<open>int\<close> can hold, and each of its lines is tagged (blank for context,
  \<open>+\<close> for an insertion, \<open>-\<close> for a deletion) and holds no newline.
\<close>

definition int32 :: "int \<Rightarrow> bool" where
  "int32 i = (- (2 ^ 31) \<le> i \<and> i \<le> 2 ^ 31 - 1)"

definition taggedLine :: "string \<Rightarrow> bool" where
  "taggedLine l =
     (case l of
        [] \<Rightarrow> False
      | c # body \<Rightarrow> (c = CHR '' '' \<or> c = CHR ''+'' \<or> c = CHR ''-'') \<and> newline \<notin> set body)"

definition wellformedHunk :: "DiffHunk \<Rightarrow> bool" where
  "wellformedHunk hunk =
     (int32 (oldStart hunk) \<and> int32 (oldCount hunk) \<and> int32 (newStart hunk)
      \<and> int32 (newCount hunk) \<and> (\<forall>l \<in> set (lines hunk). taggedLine l))"

definition wellformed :: "FileDiff \<Rightarrow> bool" where
  "wellformed diff =
     (newline \<notin> set (oldFile diff) \<and> newline \<notin> set (newFile diff)
      \<and> (\<forall>hunk \<in> set (hunks diff). wellformedHunk hunk))"

text \<open>
  Auxiliary notions for the text form: strings free of the separators of a hunk header,
  and the lines that the hunks of a diff are written as.
\<close>

definition plain :: "string \<Rightarrow> bool" where
  "plain s = (\<forall>c \<in> set s. c \<noteq> CHR '','' \<and> c \<noteq> CHR ''+'' \<and> c \<noteq> CHR '' '' \<and> c \<noteq> newline)"

definition hunkLines :: "DiffHunk list \<Rightarrow> string list" where
  "hunkLines hs = concat (map (\<lambda>h. hunkHeader h # lines h) hs)"

text \<open>The hunks of a patch in ascending \<open>oldStart\<close> order, as the specification replays them.\<close>

definition sortedHunks :: "DiffHunk list \<Rightarrow> DiffHunk list" where
  "sortedHunks hs = sort_key oldStart hs"

text \<open>
  The first-parent chain of a commit graph, newest first: from a hash, the commit it
  names, then the chain of that commit's first parent, ending at a root commit (one with
  no parents). With no commits yet (empty head) the chain is empty. Further parents play
  no part.
\<close>

inductive firstParentChain :: "(string \<Rightarrow> CommitInfo) \<Rightarrow> string \<Rightarrow> CommitInfo list \<Rightarrow> bool"
  for load :: "string \<Rightarrow> CommitInfo" where
  noCommits: "firstParentChain load [] []"
| root: "h \<noteq> [] \<Longrightarrow> hash (load h) \<noteq> [] \<Longrightarrow> parentHashes (load h) = []
         \<Longrightarrow> firstParentChain load h [load h]"
| step: "h \<noteq> [] \<Longrightarrow> hash (load h) \<noteq> [] \<Longrightarrow> parentHashes (load h) = parent # others
         \<Longrightarrow> firstParentChain load parent cs
         \<Longrightarrow> firstParentChain load h (load h # cs)"

code_pred firstParentChain .

text \<open>The classification rule of the specification for a file present on disk.\<close>

definition classify :: "string \<Rightarrow> string \<Rightarrow> FileStatus" where
  "classify h lastCommit =
     (if h = lastCommit then COMMITTED else if lastCommit = [] then UNTRACKED else MODIFIED)"

text \<open>The status a table records for a path.\<close>

definition statusOf :: "(string \<rightharpoonup> FileInfo) \<Rightarrow> string \<Rightarrow> FileStatus option" where
  "statusOf files p = map_option status (files p)"

section \<open>Example values\<close>

definition fs0 :: FileSystem where
  "fs0 = \<lparr>contents = [''f'' \<mapsto> ''a'' @ [newline] @ ''b'' @ [newline]], writable = (\<lambda>p. True)\<rparr>"

definition hunkA :: DiffHunk where
  "hunkA = \<lparr>oldStart = 1, oldCount = 1, newStart = 1, newCount = 2, lines = [''+x'', ''+y'']\<rparr>"

definition hunkB :: DiffHunk where
  "hunkB = \<lparr>oldStart = 2, oldCount = 1, newStart = 2, newCount = 1, lines = [''+z'']\<rparr>"

definition hunkFar :: DiffHunk where
  "hunkFar = \<lparr>oldStart = 4, oldCount = 1, newStart = 4, newCount = 1, lines = [''+z'']\<rparr>"

definition d0 :: FileDiff where
  "d0 = \<lparr>oldFile = ''a.txt'', newFile = ''b.txt'',
     hunks = [\<lparr>oldStart = 1, oldCount = 3, newStart = 1, newCount = 3,
              lines = ['' Line1'', ''-Line2'', ''+LineX'', '' Line3'']\<rparr>,
             \<lparr>oldStart = 7, oldCount = 0, newStart = 7, newCount = 1,
              lines = [''+tail'']\<rparr>]\<rparr>"

definition exampleLoad :: "string \<Rightarrow> CommitInfo" where
  "exampleLoad h =
     (if h = ''c3'' then emptyCommit\<lparr>hash := ''c3'', parentHashes := [''c2'', ''m1'']\<rparr>
      else if h = ''c2'' then emptyCommit\<lparr>hash := ''c2'', parentHashes := [''c1'']\<rparr>
      else if h = ''c1'' then emptyCommit\<lparr>hash := ''c1''\<rparr>
      else if h = ''m1'' then emptyCommit\<lparr>hash := ''m1''\<rparr>
      else emptyCommit)"

definition exampleManager :: CommitManager where
  "exampleManager = \<lparr>mimirionDir = ''.mimirion'', currentHead = ''c3''\<rparr>"

definition exampleTree :: "DirEntry list" where
  "exampleTree = [\<lparr>relativePath = ''a.txt'', insideMimirionDir = False, node = RegularFile ''x''\<rparr>]"

definition firstScan :: "(string \<Rightarrow> string) \<Rightarrow> (string \<rightharpoonup> FileInfo)" where
  "firstScan sha = updateStatus sha exampleTree Map.empty"

section \<open>Diff generation\<close>

lemma computeHunks_empty_iff: "computeHunks a b c = [] \<longleftrightarrow> a = b"
  by (simp add: computeHunks_def split: option.splits)

lemma insertedLines_compareLines: "insertedLines (compareLines a b) = b"
  by (induction a b rule: compareLines.induct) auto

lemma to_int_small: "n < 2 ^ 31 \<Longrightarrow> to_int n = int n"
  by (simp add: to_int_def)

lemma getlines_snoc_newline:
  "getlines cur (s @ [newline]) =
     (if (s = [] \<and> cur = []) \<or> (s \<noteq> [] \<and> last s = newline)
      then getlines cur s @ [[]] else getlines cur s)"
  by (induction s arbitrary: cur) auto

text \<open>
  C9: for every line sequence \<open>x\<close>, the diff of \<open>x\<close> against itself is the empty hunk
  list.
\<close>

theorem computeHunks_identical: "computeHunks x x contextLines = []"
  by (simp add: computeHunks_def)

text \<open>
  C10, as amended: the diff between a content \<open>s\<close> and \<open>s\<close> followed by one newline has
  no hunks exactly when \<open>s\<close> is not empty and does not already end in a newline. Only
  then does line splitting drop the added newline; after an empty content or a final
  newline it yields one more, empty, line.
\<close>

theorem trailing_newline_no_hunks:
  "hunks (generateDiffFromStrings s (s @ [newline]) c) = []
     \<longleftrightarrow> (s \<noteq> [] \<and> last s \<noteq> newline)"
  by (auto simp: generateDiffFromStrings_def computeHunks_empty_iff splitLines_def
        getlines_snoc_newline)

theorem trailing_newline_no_hunks_witness:
  "hunks (generateDiffFromStrings ''abc'' (''abc'' @ [newline]) 3) = []"
  using trailing_newline_no_hunks [of "''abc''" 3] by (simp add: newline_def)

text \<open>
  C10 as stated fails for the empty content: the diff between the empty string and a
  single newline has a hunk (it inserts one empty line).
\<close>

theorem trailing_newline_counterexample:
  "hunks (generateDiffFromStrings [] ([] @ [newline]) 3) \<noteq> []"
  by (simp add: generateDiffFromStrings_def computeHunks_def splitLines_def)

section \<open>Patch application\<close>

lemma applyHunks_append:
  "applyHunks (pre @ post) ls =
     (case applyHunks pre ls of Inl e \<Rightarrow> Inl e | Inr ls' \<Rightarrow> applyHunks post ls')"
  by (induction pre arbitrary: ls) (auto split: sum.splits)

text \<open>
  C1, as amended: for a non-empty old sequence \<open>a\<close> of fewer than \<open>2^31\<close> lines (or
  \<open>a = b\<close>), outside the added-line special case, the diff from \<open>a\<close> to \<open>b\<close> is empty when
  \<open>a = b\<close> and otherwise the single hunk over the whole old file that the greedy
  line-by-line comparison produces, and applying it to \<open>a\<close> yields exactly \<open>b\<close>. The
  script is not claimed to be minimal.
\<close>

theorem computeHunks_roundtrip:
  assumes "length a < 2 ^ 31" and "a \<noteq> [] \<or> a = b" and "\<not> addedLineCase a b"
  shows "computeHunks a b c =
           (if a = b then []
            else [\<lparr>oldStart = 1, oldCount = int (length a), newStart = 1,
                   newCount = to_int (length b), lines = compareLines a b\<rparr>])
         \<and> applyHunks (computeHunks a b c) a = Inr b"
proof (cases "a = b")
  case True
  then show ?thesis by (simp add: computeHunks_def)
next
  case False
  with assms(2) have pos: "0 < length a" by simp
  from assms(3) have sel:
    "(if length b = length a + 1 then foundAddedLine a b else None) = None"
    by (auto simp: addedLineCase_def)
  have ch: "computeHunks a b c =
      [\<lparr>oldStart = 1, oldCount = int (length a), newStart = 1,
        newCount = to_int (length b), lines = compareLines a b\<rparr>]"
    using False sel assms(1) by (simp add: computeHunks_def to_int_small)
  have "applyHunk \<lparr>oldStart = 1, oldCount = int (length a), newStart = 1,
        newCount = to_int (length b), lines = compareLines a b\<rparr> a = Inr b"
    using assms(1) pos by (simp add: applyHunk_def to_int_small insertedLines_compareLines)
  with ch False show ?thesis by simp
qed

theorem computeHunks_roundtrip_witness:
  "applyHunks (computeHunks [''a'', ''b'', ''c''] [''a'', ''x''] 3) [''a'', ''b'', ''c'']
     = Inr [''a'', ''x'']"
  by (rule computeHunks_roundtrip [THEN conjunct2]) (simp_all add: addedLineCase_def)

text \<open>
  C1 as stated fails. In the added-line special case the patch does not rebuild the new
  file: from \<open>[a, b]\<close> to \<open>[a, c, d]\<close> it yields \<open>[a, c, b]\<close>. For an empty old file the
  hunk starts at line 1 of 0 lines and is rejected. And the default comparison is not
  minimal: for the specification's own scenario (one changed line) it emits four
  insertions and deletions where two suffice.
\<close>

theorem computeHunks_roundtrip_counterexample:
  "applyHunks (computeHunks [''a'', ''b''] [''a'', ''c'', ''d''] 3) [''a'', ''b'']
     = Inr [''a'', ''c'', ''b'']
   \<and> applyHunks (computeHunks [''a'', ''b''] [''a'', ''c'', ''d''] 3) [''a'', ''b'']
     \<noteq> Inr [''a'', ''c'', ''d'']
   \<and> applyHunks (computeHunks [] [''a''] 3) [] = Inl HunkOutOfRange
   \<and> editCount (computeHunks [''Line1'', ''Line2'', ''Line3'']
                    [''Line1'', ''LineX'', ''Line3''] 3) = 4
   \<and> minimalEditCount [''Line1'', ''Line2'', ''Line3'']
        [''Line1'', ''LineX'', ''Line3''] = 2"
  by (simp add: computeHunks_def applyHunk_def to_int_def editCount_def isEdit_def
        minimalEditCount_def)

text \<open>
  C6, as amended: applying a patch replays the hunks in the order in which the diff
  lists them, which is ascending \<open>oldStart\<close> order when the diff lists them so. Whenever
  the application fails with \<open>HunkOutOfRange\<close> the file system is unchanged; and when
  the hunks before some hunk apply and that hunk's \<open>oldStart\<close> exceeds the line count
  reached, the result is \<open>HunkOutOfRange\<close> and nothing is written.
\<close>

theorem applyDiff_all_or_nothing:
  "(fst (applyDiff diff target fs) = Some HunkOutOfRange
      \<longrightarrow> snd (applyDiff diff target fs) = fs)
   \<and> (hunks diff = pre @ hunk # post
        \<and> applyHunks pre (splitLines (readFile fs target)) = Inr ls
        \<and> oldStart hunk > to_int (length ls)
      \<longrightarrow> applyDiff diff target fs = (Some HunkOutOfRange, fs))
   \<and> (sorted (map oldStart (hunks diff)) \<longrightarrow> sortedHunks (hunks diff) = hunks diff)"
  by (auto simp: applyDiff_def writeFile_def patchContent_def applyHunks_append applyHunk_def
        sortedHunks_def sort_key_id_if_sorted split: sum.splits if_splits)

theorem applyDiff_all_or_nothing_witness:
  "applyDiff \<lparr>oldFile = ''a'', newFile = ''b'', hunks = [hunkA, hunkFar]\<rparr> ''f'' fs0
     = (Some HunkOutOfRange, fs0)
   \<and> sortedHunks [hunkA, hunkFar] = [hunkA, hunkFar]"
proof -
  have "applyHunks [hunkA] (splitLines (readFile fs0 ''f'')) = Inr [''x'', ''y'', ''b'']"
    by (simp add: hunkA_def fs0_def readFile_def splitLines_def applyHunk_def to_int_def
          newline_def)
  moreover have "oldStart hunkFar > to_int (length [''x'', ''y'', ''b''])"
    by (simp add: hunkFar_def to_int_def)
  moreover have "sorted (map oldStart [hunkA, hunkFar])"
    by (simp add: hunkA_def hunkFar_def)
  ultimately show ?thesis
    using applyDiff_all_or_nothing
      [of "\<lparr>oldFile = ''a'', newFile = ''b'', hunks = [hunkA, hunkFar]\<rparr>"
        "''f''" fs0 "[hunkA]" hunkFar "[]" "[''x'', ''y'', ''b'']"]
    by simp
qed

text \<open>
  C6 as stated fails for a diff that lists its hunks out of order: the hunks are replayed
  as listed, and the result differs from the replay in ascending \<open>oldStart\<close> order.
\<close>

theorem applyDiff_order_counterexample:
  "applyHunks [hunkB, hunkA] [''a'', ''b''] = Inr [''x'', ''y'', ''z'']
   \<and> applyHunks (sortedHunks [hunkB, hunkA]) [''a'', ''b''] = Inr [''x'', ''z'', ''b'']
   \<and> applyHunks [hunkB, hunkA] [''a'', ''b'']
       \<noteq> applyHunks (sortedHunks [hunkB, hunkA]) [''a'', ''b'']"
  by (simp add: sortedHunks_def hunkA_def hunkB_def applyHunk_def to_int_def)

section \<open>Text form of a diff: parsing what was written\<close>

subsection \<open>Digits\<close>

lemma of_char_digit_char: "0 \<le> d \<Longrightarrow> d < 10 \<Longrightarrow> (of_char (digit_char d) :: int) = 48 + d"
  by (simp add: digit_char_def)

lemma isdigit_digit_char: "0 \<le> d \<Longrightarrow> d < 10 \<Longrightarrow> isdigit (digit_char d)"
  by (simp add: isdigit_def of_char_digit_char)

lemma isdigit_show_digits: "0 \<le> n \<Longrightarrow> \<forall>c \<in> set (show_digits n). isdigit c"
proof (induction n rule: show_digits.induct)
  case (1 n)
  show ?case
  proof (cases "n < 10")
    case True
    with "1.prems" show ?thesis
      by (subst show_digits.simps) (simp add: isdigit_digit_char)
  next
    case False
    with 1 have "\<forall>c \<in> set (show_digits (n div 10)). isdigit c" by simp
    moreover have "isdigit (digit_char (n mod 10))" by (simp add: isdigit_digit_char)
    ultimately show ?thesis using False by (subst show_digits.simps) simp
  qed
qed

lemma show_digits_nonempty: "show_digits n \<noteq> []"
  by (subst show_digits.simps) simp

lemma digits_value_snoc: "digits_value (ds @ [c]) = 10 * digits_value ds + (of_char c - 48)"
  by (simp add: digits_value_def)

lemma digits_value_show_digits: "0 \<le> n \<Longrightarrow> digits_value (show_digits n) = n"
proof (induction n rule: show_digits.induct)
  case (1 n)
  show ?case
  proof (cases "n < 10")
    case True
    with "1.prems" show ?thesis
      by (subst show_digits.simps) (simp add: digits_value_def of_char_digit_char)
  next
    case False
    with 1 have "digits_value (show_digits (n div 10)) = n div 10" by simp
    then show ?thesis using False
      by (subst show_digits.simps) (simp add: digits_value_snoc of_char_digit_char)
  qed
qed

lemma isdigit_not_special:
  "isdigit c \<Longrightarrow> c \<noteq> CHR '','' \<and> c \<noteq> CHR ''+'' \<and> c \<noteq> CHR '' '' \<and> c \<noteq> CHR ''-''
     \<and> c \<noteq> newline \<and> \<not> isspace c"
  by (auto simp: isdigit_def isspace_def newline_def)

lemma plain_digits: "\<forall>c \<in> set s. isdigit c \<Longrightarrow> plain s"
  by (auto simp: plain_def isdigit_def newline_def)

lemma plain_show_int: "plain (show_int i)"
proof (cases "i < 0")
  case True
  then have "plain (show_digits (- i))" by (intro plain_digits isdigit_show_digits) simp
  with True show ?thesis by (simp add: show_int_def plain_def newline_def)
next
  case False
  then have "plain (show_digits i)" by (intro plain_digits isdigit_show_digits) simp
  with False show ?thesis by (simp add: show_int_def)
qed

lemma takeWhile_digits: "\<forall>c \<in> set s. isdigit c \<Longrightarrow> takeWhile isdigit (s @ CHR '' '' # r) = s"
  by (induction s) (auto simp: isdigit_def)

lemma takeWhile_all: "\<forall>c \<in> set s. P c \<Longrightarrow> takeWhile P s = s"
  by (induction s) auto

lemma stoi_digits:
  assumes dig: "\<forall>c \<in> set ds. isdigit c" and ne: "ds \<noteq> []"
    and tail: "t = ds \<or> (\<exists>r. t = ds @ CHR '' '' # r)"
  shows "stoi t = (if int32 (digits_value ds) then Inr (digits_value ds) else Inl OutOfRange)"
    and "stoi (CHR ''-'' # t) =
           (if int32 (- digits_value ds) then Inr (- digits_value ds) else Inl OutOfRange)"
proof -
  from ne obtain c cs where cs: "ds = c # cs" by (cases ds) auto
  with dig have c: "isdigit c" by simp
  from tail cs obtain r where t: "t = c # r" by auto
  from tail have tw: "takeWhile isdigit t = ds"
  proof (elim disjE exE)
    assume "t = ds"
    then show ?thesis by (simp only: takeWhile_all [OF dig])
  next
    fix r assume "t = ds @ CHR '' '' # r"
    then show ?thesis by (simp only: takeWhile_digits [OF dig])
  qed
  have sp: "\<not> isspace c" "c \<noteq> CHR ''-''" "c \<noteq> CHR ''+''"
    using isdigit_not_special [OF c] by simp_all
  have nsp: "\<not> isspace (CHR ''-'')" by (simp add: isspace_def)
  show "stoi t = (if int32 (digits_value ds) then Inr (digits_value ds) else Inl OutOfRange)"
    using sp ne tw by (auto simp: stoi_def t int32_def Let_def)
  show "stoi (CHR ''-'' # t) =
          (if int32 (- digits_value ds) then Inr (- digits_value ds) else Inl OutOfRange)"
    using nsp ne tw by (auto simp: stoi_def int32_def Let_def)
qed

lemma stoi_show_int:
  assumes "int32 i" and "t = show_int i \<or> (\<exists>r. t = show_int i @ CHR '' '' # r)"
  shows "stoi t = Inr i"
proof (cases "i < 0")
  case True
  let ?ds = "show_digits (- i)"
  from True have dig: "\<forall>c \<in> set ?ds. isdigit c" by (intro isdigit_show_digits) simp
  have v: "digits_value ?ds = - i" using True by (simp add: digits_value_show_digits)
  from assms(2) True obtain t' where t: "t = CHR ''-'' # t'"
    and t': "t' = ?ds \<or> (\<exists>r. t' = ?ds @ CHR '' '' # r)"
    by (auto simp: show_int_def)
  show ?thesis
    using stoi_digits(2) [OF dig show_digits_nonempty t'] assms(1) by (simp add: t v)
next
  case False
  let ?ds = "show_digits i"
  from False have dig: "\<forall>c \<in> set ?ds. isdigit c" by (intro isdigit_show_digits) simp
  have v: "digits_value ?ds = i" using False by (simp add: digits_value_show_digits)
  from assms(2) False have t: "t = ?ds \<or> (\<exists>r. t = ?ds @ CHR '' '' # r)"
    by (simp add: show_int_def)
  show ?thesis
    using stoi_digits(1) [OF dig show_digits_nonempty t] assms(1) by (simp add: v)
qed

subsection \<open>Searching\<close>

lemma find_char_decomp: "c \<notin> set mid \<Longrightarrow> find_char c (mid @ c # post) = Some (length mid)"
  by (induction mid) auto

lemma find_from_decomp:
  "s = pre @ mid @ c # post \<Longrightarrow> length pre = pos \<Longrightarrow> c \<notin> set mid
     \<Longrightarrow> find_from s c pos = Some (pos + length mid)"
  by (auto simp: find_from_def find_char_decomp)

lemma find_str_decomp:
  "p \<notin> set mid \<Longrightarrow> find_str (p # ps) (mid @ (p # ps) @ post) = Some (length mid)"
  by (induction mid) auto

lemma find_str_from_decomp:
  "s = pre @ mid @ (p # ps) @ post \<Longrightarrow> length pre = pos \<Longrightarrow> p \<notin> set mid
     \<Longrightarrow> find_str_from s (p # ps) pos = Some (pos + length mid)"
  using find_str_decomp [of p mid ps post] by (auto simp: find_str_from_def)

lemma substr_decomp:
  "s = pre @ mid @ post \<Longrightarrow> length pre = pos \<Longrightarrow> length mid = n \<Longrightarrow> substr s pos n = mid"
  by (auto simp: substr_def)

lemma plainD:
  "plain s \<Longrightarrow> CHR '','' \<notin> set s \<and> CHR ''+'' \<notin> set s \<and> CHR '' '' \<notin> set s \<and> newline \<notin> set s"
  by (auto simp: plain_def)

lemma parseHeader_format:
  assumes A: "plain A" and B: "plain B" and C: "plain C" and D: "plain D"
  shows "parseHeader (''@@ -'' @ A @ '','' @ B @ '' +'' @ C @ '','' @ D @ '' @@'') =
     Some (case stoi A of Inl e \<Rightarrow> Inl e | Inr os \<Rightarrow>
          (case stoi (B @ '' '') of Inl e \<Rightarrow> Inl e | Inr oc \<Rightarrow>
          (case stoi C of Inl e \<Rightarrow> Inl e | Inr ns \<Rightarrow>
          (case stoi D of Inl e \<Rightarrow> Inl e | Inr nc \<Rightarrow> Inr (os, oc, ns, nc)))))"
proof -
  let ?h = "''@@ -'' @ A @ '','' @ B @ '' +'' @ C @ '','' @ D @ '' @@''"
  note pA = plainD [OF A] and pB = plainD [OF B] and pC = plainD [OF C] and pD = plainD [OF D]
  have "find_from ?h (CHR ''-'') 0 = Some (0 + length ''@@ '')"
    by (rule find_from_decomp [where pre = "[]"
          and post = "A @ '','' @ B @ '' +'' @ C @ '','' @ D @ '' @@''"]) simp_all
  then have m: "find_from ?h (CHR ''-'') 0 = Some 3" by simp
  have "find_from ?h (CHR '','') 3 = Some (3 + length (CHR ''-'' # A))"
    by (rule find_from_decomp [where pre = "''@@ ''"
          and post = "B @ '' +'' @ C @ '','' @ D @ '' @@''"]) (simp_all add: pA)
  then have c1: "find_from ?h (CHR '','') 3 = Some (4 + length A)" by simp
  have "find_from ?h (CHR ''+'') (4 + length A) = Some (4 + length A + length ('','' @ B @ '' ''))"
    by (rule find_from_decomp [where pre = "''@@ -'' @ A"
          and post = "C @ '','' @ D @ '' @@''"]) (simp_all add: pB)
  then have p: "find_from ?h (CHR ''+'') (4 + length A) = Some (6 + length A + length B)"
    by simp
  have "find_from ?h (CHR '','') (6 + length A + length B)
          = Some (6 + length A + length B + length (CHR ''+'' # C))"
    by (rule find_from_decomp [where pre = "''@@ -'' @ A @ '','' @ B @ '' ''"
          and post = "D @ '' @@''"]) (simp_all add: pC)
  then have c2: "find_from ?h (CHR '','') (6 + length A + length B)
                   = Some (7 + length A + length B + length C)"
    by simp
  have "find_str_from ?h (CHR '' '' # ''@@'') (7 + length A + length B + length C)
          = Some (7 + length A + length B + length C + length (CHR '','' # D))"
    by (rule find_str_from_decomp [where pre = "''@@ -'' @ A @ '','' @ B @ '' +'' @ C"
          and post = "[]"]) (simp_all add: pD)
  then have a: "find_str_from ?h '' @@'' (7 + length A + length B + length C)
                  = Some (8 + length A + length B + length C + length D)"
    by simp
  have sA: "substr ?h (3 + 1) (4 + length A - 3 - 1) = A"
    by (rule substr_decomp [where pre = "''@@ -''"
          and post = "'','' @ B @ '' +'' @ C @ '','' @ D @ '' @@''"]) simp_all
  have sB: "substr ?h (4 + length A + 1) (6 + length A + length B - (4 + length A) - 1)
              = B @ '' ''"
    by (rule substr_decomp [where pre = "''@@ -'' @ A @ '',''"
          and post = "''+'' @ C @ '','' @ D @ '' @@''"]) simp_all
  have sC: "substr ?h (6 + length A + length B + 1)
              (7 + length A + length B + length C - (6 + length A + length B) - 1) = C"
    by (rule substr_decomp [where pre = "''@@ -'' @ A @ '','' @ B @ '' +''"
          and post = "'','' @ D @ '' @@''"]) simp_all
  have sD: "substr ?h (7 + length A + length B + length C + 1)
              (8 + length A + length B + length C + length D
                 - (7 + length A + length B + length C) - 1) = D"
    by (rule substr_decomp [where pre = "''@@ -'' @ A @ '','' @ B @ '' +'' @ C @ '',''"
          and post = "'' @@''"]) simp_all
  show ?thesis
    unfolding parseHeader_def m c1 p c2 a option.case parseNumbers_def sA sB sC sD ..
qed

lemma stoi_show_int_plain: "int32 i \<Longrightarrow> stoi (show_int i) = Inr i"
  by (rule stoi_show_int) simp_all

lemma stoi_show_int_space: "int32 i \<Longrightarrow> stoi (show_int i @ '' '') = Inr i"
  by (rule stoi_show_int) simp_all

lemma parseHeader_hunkHeader:
  assumes "int32 (oldStart h)" "int32 (oldCount h)" "int32 (newStart h)" "int32 (newCount h)"
  shows "parseHeader (hunkHeader h) = Some (Inr (oldStart h, oldCount h, newStart h, newCount h))"
  unfolding hunkHeader_def
  by (simp only: parseHeader_format [OF plain_show_int plain_show_int plain_show_int plain_show_int]
        stoi_show_int_plain stoi_show_int_space assms sum.case)


subsection \<open>Lines\<close>

lemma getlines_line:
  "newline \<notin> set l \<Longrightarrow> getlines cur (l @ newline # rest) = (cur @ l) # getlines [] rest"
  by (induction l arbitrary: cur) auto

lemma getlines_lines:
  "\<forall>l \<in> set ls. newline \<notin> set l
     \<Longrightarrow> getlines [] (concat (map (\<lambda>l. l @ [newline]) ls) @ rest) = ls @ getlines [] rest"
  by (induction ls) (auto simp: getlines_line)

lemma taggedLine_no_newline: "taggedLine l \<Longrightarrow> newline \<notin> set l"
  by (auto simp: taggedLine_def newline_def split: list.splits)

lemma taggedLine_not_header: "taggedLine l \<Longrightarrow> \<not> isHunkHeader l"
  by (auto simp: taggedLine_def isHunkHeader_def substr_def split: list.splits)

lemma isHunkHeader_hunkHeader: "isHunkHeader (hunkHeader h)"
  by (simp add: isHunkHeader_def hunkHeader_def substr_def)

lemma hunkHeader_no_newline: "newline \<notin> set (hunkHeader h)"
  using plainD [OF plain_show_int]
  by (simp add: hunkHeader_def newline_def)

lemma concat_hunkToString:
  "concat (map hunkToString hs) = concat (map (\<lambda>l. l @ [newline]) (hunkLines hs))"
  by (induction hs) (simp_all add: hunkToString_def hunkLines_def)

lemma hunkLines_no_newline:
  "\<forall>h \<in> set hs. wellformedHunk h \<Longrightarrow> \<forall>l \<in> set (hunkLines hs). newline \<notin> set l"
  by (auto simp: hunkLines_def wellformedHunk_def hunkHeader_no_newline taggedLine_no_newline)

lemma splitLines_diffToString:
  assumes "wellformed d"
  shows "splitLines (diffToString d) =
           (''--- '' @ oldFile d) # (''+++ '' @ newFile d) # hunkLines (hunks d)"
proof -
  from assms have o: "newline \<notin> set (''--- '' @ oldFile d)"
    and n: "newline \<notin> set (''+++ '' @ newFile d)"
    by (simp_all add: wellformed_def newline_def)
  from assms have h: "\<forall>l \<in> set (hunkLines (hunks d)). newline \<notin> set l"
    by (intro hunkLines_no_newline) (simp add: wellformed_def)
  have str: "diffToString d = (''--- '' @ oldFile d) @ newline # (''+++ '' @ newFile d) @ newline
          # concat (map (\<lambda>l. l @ [newline]) (hunkLines (hunks d)))"
    by (simp add: diffToString_def concat_hunkToString)
  have rest: "getlines [] (concat (map (\<lambda>l. l @ [newline]) (hunkLines (hunks d))))
                = hunkLines (hunks d)"
    using getlines_lines [OF h, of "[]"] by simp
  show ?thesis
    unfolding splitLines_def str
    by (simp only: getlines_line [OF o] getlines_line [OF n] rest append_Nil)
qed

lemma hunkLines_start: "hunkLines hs = [] \<or> isHunkHeader (hd (hunkLines hs))"
  by (cases hs) (simp_all add: hunkLines_def isHunkHeader_hunkHeader)

lemma takeWhile_body:
  assumes "\<forall>l \<in> set body. \<not> isHunkHeader l" and "rest = [] \<or> isHunkHeader (hd rest)"
  shows "takeWhile (\<lambda>x. \<not> isHunkHeader x) (body @ rest) = body"
    and "dropWhile (\<lambda>x. \<not> isHunkHeader x) (body @ rest) = rest"
  using assms by (induction body) (auto simp: takeWhile_eq_Nil_iff dropWhile_eq_self_iff)

lemma parseHunks_hunkLines:
  "\<forall>h \<in> set hs. wellformedHunk h \<Longrightarrow> parseHunks (hunkLines hs) = Inr hs"
proof (induction hs)
  case Nil
  show ?case by (simp add: hunkLines_def)
next
  case (Cons h hs)
  then have wf: "wellformedHunk h" and ih: "parseHunks (hunkLines hs) = Inr hs" by simp_all
  have split: "hunkLines (h # hs) = hunkHeader h # (lines h @ hunkLines hs)"
    by (simp add: hunkLines_def)
  from wf have body: "\<forall>l \<in> set (lines h). \<not> isHunkHeader l"
    by (auto simp: wellformedHunk_def taggedLine_not_header)
  from wf have hdr: "parseHeader (hunkHeader h)
      = Some (Inr (oldStart h, oldCount h, newStart h, newCount h))"
    by (simp add: wellformedHunk_def parseHeader_hunkHeader)
  show ?case
    by (simp add: split isHunkHeader_hunkHeader hdr ih
          takeWhile_body [OF body hunkLines_start])
qed

text \<open>
  C7: for every well-formed diff \<open>d\<close> (paths and line bodies free of newlines, every
  hunk line tagged as context, insertion or deletion, positions and counts within the
  range of \<^verbatim>\<open>int\<close>), parsing the text form of \<open>d\<close> yields \<open>d\<close>.
\<close>

theorem parseDiff_diffToString:
  "wellformed d \<Longrightarrow> parseDiff (diffToString d) = Inr d"
  by (simp add: parseDiff_def splitLines_diffToString substr_def parseHunks_hunkLines
        wellformed_def)

theorem parseDiff_diffToString_witness:
  "wellformed d0 \<and> parseDiff (diffToString d0) = Inr d0"
proof -
  have wf: "wellformed d0"
    by (simp add: d0_def wellformed_def wellformedHunk_def int32_def taggedLine_def newline_def)
  from parseDiff_diffToString [OF wf] wf show ?thesis by simp
qed

section \<open>Commits and history\<close>

lemma historyLoop_chain:
  "firstParentChain load h cs \<Longrightarrow>
     historyLoop load maxCount h count history =
       Some (history @ (if maxCount = 0 then cs else take (maxCount - count) cs))"
proof (induction arbitrary: count history rule: firstParentChain.induct)
  case noCommits
  show ?case by (subst historyLoop.simps) simp
next
  case (root h)
  then show ?case by (subst historyLoop.simps) auto
next
  case (step h parent others cs)
  show ?case
  proof (cases "maxCount = 0 \<or> count < maxCount")
    case True
    have "historyLoop load maxCount h count history =
            historyLoop load maxCount parent (count + 1) (history @ [load h])"
      using True step.hyps by (subst historyLoop.simps) simp
    also have "\<dots> = Some ((history @ [load h])
                  @ (if maxCount = 0 then cs else take (maxCount - (count + 1)) cs))"
      by (rule step.IH)
    also have "\<dots> = Some (history @ (if maxCount = 0 then load h # cs
                                        else take (maxCount - count) (load h # cs)))"
      using True by (auto simp: take_Cons')
    finally show ?thesis .
  next
    case False
    then show ?thesis by (subst historyLoop.simps) simp
  qed
qed

text \<open>
  C5: for every commit graph whose first-parent chain from the head is \<open>cs\<close>, and every
  \<open>maxCount\<close>, \<^verbatim>\<open>getHistory\<close> returns, and returns exactly that chain, newest first:
  all of it, down to the root commit, when \<open>maxCount\<close> is 0, and its first \<open>maxCount\<close>
  entries otherwise. Parents after the first are never visited.
\<close>

theorem getHistory_first_parent_chain:
  "firstParentChain load (currentHead mgr) cs \<Longrightarrow>
     getHistory load mgr maxCount = Some (if maxCount = 0 then cs else take maxCount cs)"
  by (simp add: getHistory_def historyLoop_chain)

lemma exampleChain:
  "firstParentChain exampleLoad ''c3'' [exampleLoad ''c3'', exampleLoad ''c2'', exampleLoad ''c1'']"
proof -
  have c1: "firstParentChain exampleLoad ''c1'' [exampleLoad ''c1'']"
    by (rule firstParentChain.root) (simp_all add: exampleLoad_def emptyCommit_def)
  have c2: "firstParentChain exampleLoad ''c2'' [exampleLoad ''c2'', exampleLoad ''c1'']"
    by (rule firstParentChain.step [where parent = "''c1''" and others = "[]", OF _ _ _ c1])
      (simp_all add: exampleLoad_def emptyCommit_def)
  show ?thesis
    by (rule firstParentChain.step [where parent = "''c2''" and others = "[''m1'']", OF _ _ _ c2])
      (simp_all add: exampleLoad_def emptyCommit_def)
qed

theorem getHistory_first_parent_chain_witness:
  "getHistory exampleLoad exampleManager 0
     = Some [exampleLoad ''c3'', exampleLoad ''c2'', exampleLoad ''c1'']
   \<and> getHistory exampleLoad exampleManager 2 = Some [exampleLoad ''c3'', exampleLoad ''c2'']"
  using exampleChain
    getHistory_first_parent_chain [of exampleLoad exampleManager _ 0]
    getHistory_first_parent_chain [of exampleLoad exampleManager _ 2]
  by (simp add: exampleManager_def)

text \<open>
  C3: \<^verbatim>\<open>createCommit\<close> with no staged file fails with \<open>EmptyCommit\<close> and leaves the
  manager (its head) and the file system (branch files, \<^verbatim>\<open>HEAD\<close>, objects) as they
  were.
\<close>

theorem createCommit_empty:
  "createCommit env msg [] (mgr, fs) = (Inl EmptyCommit, mgr, fs)"
  by (simp add: createCommit_def)

lemma commitHashText_hash [simp]: "commitHashText env (c\<lparr>hash := h\<rparr>) = commitHashText env c"
  by (simp add: commitHashText_def parentLines_def identityLines_def)

lemma commitHashText_fileHashes [simp]:
  "commitHashText env (c\<lparr>fileHashes := t\<rparr>) = commitHashText env c"
  by (simp add: commitHashText_def parentLines_def identityLines_def)

lemma newCommit_hash:
  "hash (newCommit env msg stagedFiles head) = hash (newCommit env msg [] head)"
  by (simp add: newCommit_def generateCommitHash_def commitHashText_def parentLines_def
        identityLines_def)

text \<open>
  C2 fails on the code. Committing \<^verbatim>\<open>a.txt\<close> or \<^verbatim>\<open>b.txt\<close> with the same message from
  the same state gives the same result, so the hash does not cover the file table; the
  file table maps the staged path to the placeholder \<^verbatim>\<open>dummy-file-hash\<close>; and the text
  that is hashed is not the text that is stored.
\<close>

theorem createCommit_hash_ignores_files:
  "fst (createCommit env ''c1'' [''a.txt''] st) = fst (createCommit env ''c1'' [''b.txt''] st)
   \<and> fileHashes (newCommit env ''c1'' [''a.txt''] head) = [(''a.txt'', ''dummy-file-hash'')]
   \<and> hash (newCommit env ''c1'' [''a.txt''] head)
       = sha256 env (commitHashText env (newCommit env ''c1'' [''a.txt''] head))
   \<and> commitHashText env (newCommit env ''c1'' [''a.txt''] head)
       \<noteq> commitObjectText env (newCommit env ''c1'' [''a.txt''] head)"
proof -
  have h: "hash (newCommit env ''c1'' [''a.txt''] (currentHead (fst st)))
         = hash (newCommit env ''c1'' [''b.txt''] (currentHead (fst st)))"
    by (simp add: newCommit_hash [of _ _ "[''a.txt'']"] newCommit_hash [of _ _ "[''b.txt'']"])
  have 1: "fst (createCommit env ''c1'' [''a.txt''] st) = fst (createCommit env ''c1'' [''b.txt''] st)"
    using h by (cases st) (simp add: createCommit_def saveCommitObject_def Let_def)
  have 2: "fileHashes (newCommit env ''c1'' [''a.txt''] head) = [(''a.txt'', ''dummy-file-hash'')]"
    by (simp add: newCommit_def)
  have 3: "hash (newCommit env ''c1'' [''a.txt''] head)
       = sha256 env (commitHashText env (newCommit env ''c1'' [''a.txt''] head))"
    by (simp add: newCommit_def generateCommitHash_def commitHashText_def parentLines_def
          identityLines_def)
  have 4: "commitHashText env (newCommit env ''c1'' [''a.txt''] head)
       \<noteq> commitObjectText env (newCommit env ''c1'' [''a.txt''] head)"
    by (simp add: commitHashText_def commitObjectText_def)
  from 1 2 3 4 show ?thesis by blast
qed

section \<open>File status\<close>

lemma scan_None:
  "foldl (scanEntry sha oldFiles) files tree p = None \<longleftrightarrow>
     files p = None
     \<and> (\<forall>entry \<in> set tree. relativePath entry = p
            \<longrightarrow> insideMimirionDir entry \<or> node entry = Directory)"
proof (induction tree arbitrary: files)
  case Nil
  show ?case by simp
next
  case (Cons entry tree)
  show ?case
    by (simp add: Cons.IH) (auto simp: scanEntry_def isIgnored_def split: Node.splits option.splits)
qed

lemma updateStatus_deleted:
  assumes "oldFiles p = Some old"
    and "\<forall>entry \<in> set tree. relativePath entry = p
           \<longrightarrow> insideMimirionDir entry \<or> node entry = Directory"
  shows "updateStatus sha tree oldFiles p = Some (old\<lparr>status := DELETED\<rparr>)"
proof -
  have "foldl (scanEntry sha oldFiles) Map.empty tree p = None"
    using assms(2) by (simp add: scan_None)
  with assms(1) show ?thesis by (simp add: updateStatus_def)
qed

lemma unstageFile_not_staged:
  "statusOf files p \<noteq> Some STAGED
     \<Longrightarrow> unstageFile sha tree indexWritable p files = (Some InvalidState, files)"
  by (auto simp: unstageFile_def statusOf_def split: option.splits)

text \<open>
  C4 fails on the code. A new file \<^verbatim>\<open>a.txt\<close> is \<open>UNTRACKED\<close> with an empty last-commit
  hash after the first scan. A second scan of the unchanged tree finds the path in the
  old table and, its digest being non-empty, makes it \<open>MODIFIED\<close>, where the rule of
  the claim keeps it \<open>UNTRACKED\<close>.
\<close>

theorem updateStatus_rescan_untracked:
  "statusOf (firstScan sha) ''a.txt'' = Some UNTRACKED
   \<and> map_option lastCommitHash (firstScan sha ''a.txt'') = Some []
   \<and> statusOf (updateStatus sha exampleTree (firstScan sha)) ''a.txt''
       = Some (if sha ''x'' = [] then COMMITTED else MODIFIED)
   \<and> classify (sha ''x'') [] = (if sha ''x'' = [] then COMMITTED else UNTRACKED)"
  by (simp add: statusOf_def firstScan_def updateStatus_def scanEntry_def exampleTree_def
        isIgnored_def classify_def)

text \<open>
  C8 fails on the code, by the same defect. After one scan, staging and then unstaging
  \<^verbatim>\<open>a.txt\<close> leaves it \<open>UNTRACKED\<close>, but a fresh scan of the resulting table makes it
  \<open>MODIFIED\<close> (its digest being non-empty). Unstaging a path that is not staged does fail
  with \<open>InvalidState\<close> and changes nothing.
\<close>

theorem stage_unstage_rescan:
  "statusOf (snd (unstageFile sha exampleTree True ''a.txt''
       (snd (stageFile sha exampleTree True ''a.txt'' (firstScan sha))))) ''a.txt''
     = Some UNTRACKED
   \<and> statusOf (updateStatus sha exampleTree
        (snd (unstageFile sha exampleTree True ''a.txt''
          (snd (stageFile sha exampleTree True ''a.txt'' (firstScan sha)))))) ''a.txt''
     = Some (if sha ''x'' = [] then COMMITTED else MODIFIED)
   \<and> unstageFile sha exampleTree True ''a.txt'' (firstScan sha)
     = (Some InvalidState, firstScan sha)"
  by (simp add: statusOf_def firstScan_def updateStatus_def scanEntry_def exampleTree_def
        isIgnored_def stageFile_def unstageFile_def lookupEntry_def calculateFileHash_def
        saveIndex_def)

end
